theory Spec2Isabelle
  imports Complex_Main "HOL-Library.AList"
begin

section \<open>JavaScript numbers\<close>

text \<open>
  The numbers of noteDisplay.js are IEEE doubles. They are idealised here as the reals,
  extended by the three special values that the arithmetic of the file can produce: there
  is no rounding and no largest integer, and the two zeros of IEEE are one, taken as the
  positive one wherever a sign of zero would matter (a division by zero).
\<close>

datatype jsnum = Num real | NaN | PInf | NInf

fun js_neg :: "jsnum \<Rightarrow> jsnum" where
  "js_neg (Num a) = Num (- a)"
| "js_neg NaN = NaN"
| "js_neg PInf = NInf"
| "js_neg NInf = PInf"

text \<open>\<open>a + b\<close> on numbers.\<close>

fun js_add :: "jsnum \<Rightarrow> jsnum \<Rightarrow> jsnum" where
  "js_add (Num a) (Num b) = Num (a + b)"
| "js_add NaN _ = NaN"
| "js_add _ NaN = NaN"
| "js_add PInf NInf = NaN"
| "js_add NInf PInf = NaN"
| "js_add PInf _ = PInf"
| "js_add _ PInf = PInf"
| "js_add NInf _ = NInf"
| "js_add _ NInf = NInf"

text \<open>\<open>a - b\<close> on numbers.\<close>

definition js_sub :: "jsnum \<Rightarrow> jsnum \<Rightarrow> jsnum" where
  "js_sub a b = js_add a (js_neg b)"

text \<open>\<open>a * b\<close> on numbers: an infinity times zero is NaN.\<close>

fun js_mul :: "jsnum \<Rightarrow> jsnum \<Rightarrow> jsnum" where
  "js_mul (Num a) (Num b) = Num (a * b)"
| "js_mul NaN _ = NaN"
| "js_mul _ NaN = NaN"
| "js_mul PInf (Num b) = (if b = 0 then NaN else if 0 < b then PInf else NInf)"
| "js_mul NInf (Num b) = (if b = 0 then NaN else if 0 < b then NInf else PInf)"
| "js_mul (Num a) PInf = (if a = 0 then NaN else if 0 < a then PInf else NInf)"
| "js_mul (Num a) NInf = (if a = 0 then NaN else if 0 < a then NInf else PInf)"
| "js_mul PInf PInf = PInf"
| "js_mul PInf NInf = NInf"
| "js_mul NInf PInf = NInf"
| "js_mul NInf NInf = PInf"

text \<open>
  \<open>a / b\<close> on numbers. A division by zero raises nothing in JavaScript: it gives an
  infinity, or NaN for \<open>0 / 0\<close>.
\<close>

fun js_div :: "jsnum \<Rightarrow> jsnum \<Rightarrow> jsnum" where
  "js_div (Num a) (Num b) =
     (if b = 0 then (if a = 0 then NaN else if 0 < a then PInf else NInf)
      else Num (a / b))"
| "js_div NaN _ = NaN"
| "js_div _ NaN = NaN"
| "js_div (Num a) PInf = Num 0"
| "js_div (Num a) NInf = Num 0"
| "js_div PInf (Num b) = (if 0 \<le> b then PInf else NInf)"
| "js_div NInf (Num b) = (if 0 \<le> b then NInf else PInf)"
| "js_div PInf PInf = NaN"
| "js_div PInf NInf = NaN"
| "js_div NInf PInf = NaN"
| "js_div NInf NInf = NaN"

text \<open>\<open>Math.abs\<close>.\<close>

fun js_abs :: "jsnum \<Rightarrow> jsnum" where
  "js_abs (Num a) = Num \<bar>a\<bar>"
| "js_abs NaN = NaN"
| "js_abs PInf = PInf"
| "js_abs NInf = PInf"

section \<open>Plain objects\<close>

text \<open>
  A plain object holding numbers is the list of its own enumerable properties, in the
  order in which \<open>for ... in\<close> visits them. Its prototype is \<open>Object.prototype\<close>, whose
  properties are not enumerable but are found by a property read.
\<close>

type_synonym jsobj = "(string \<times> jsnum) list"

text \<open>
  The property names of \<open>Object.prototype\<close> (ECMAScript, with the legacy names of its
  annex B that every browser has).
\<close>

definition objectPrototypeNames :: "string list" where
  "objectPrototypeNames =
     [''constructor'', ''hasOwnProperty'', ''isPrototypeOf'', ''propertyIsEnumerable'',
      ''toLocaleString'', ''toString'', ''valueOf'', ''__proto__'',
      ''__defineGetter__'', ''__defineSetter__'', ''__lookupGetter__'',
      ''__lookupSetter__'']"

text \<open>
  \<open>obj[k] = v\<close> for a number \<open>v\<close>. The name \<open>__proto__\<close> is an accessor of
  \<open>Object.prototype\<close>: unless the object has an own property of that name, the assignment
  calls the setter, which ignores a value that is not an object, and nothing is stored.
\<close>

definition setProp :: "jsobj \<Rightarrow> string \<Rightarrow> jsnum \<Rightarrow> jsobj" where
  "setProp obj k v =
     (if k = ''__proto__'' \<and> map_of obj k = None then obj else AList.update k v obj)"

section \<open>LinearScaler\<close>

record unit_cfg =
  zero :: real
  scaling :: real

text \<open>The configuration: the own properties of the object \<open>units\<close>.\<close>

type_synonym units = "(string \<times> unit_cfg) list"

text \<open>
  What \<open>this.units[unit]\<close> evaluates to: a configured unit, a member inherited from
  \<open>Object.prototype\<close> (a function, or the prototype itself for \<open>__proto__\<close>), or
  \<open>undefined\<close>.
\<close>

datatype unit_prop = Undefined | Configured unit_cfg | Inherited

definition getUnit :: "units \<Rightarrow> string \<Rightarrow> unit_prop" where
  "getUnit us unit =
     (case map_of us unit of
        Some c \<Rightarrow> Configured c
      | None \<Rightarrow> if unit \<in> set objectPrototypeNames then Inherited else Undefined)"

text \<open>
  \<open>this.units[unit].zero\<close> and \<open>this.units[unit].scaling\<close> as operands of the arithmetic.
  An inherited member has neither property: the read gives \<open>undefined\<close>, which the
  arithmetic converts to NaN. The read is never made on \<open>undefined\<close> itself, which both
  loops exclude.
\<close>

fun zeroOf :: "unit_prop \<Rightarrow> jsnum" where
  "zeroOf (Configured c) = Num (zero c)"
| "zeroOf _ = NaN"

fun scalingOf :: "unit_prop \<Rightarrow> jsnum" where
  "scalingOf (Configured c) = Num (scaling c)"
| "scalingOf _ = NaN"

text \<open>The body of the loop of \<open>outputValuesFor\<close>, for one property of \<open>inputValues\<close>.\<close>

definition outputStep :: "units \<Rightarrow> string \<times> jsnum \<Rightarrow> jsobj \<Rightarrow> jsobj" where
  "outputStep us p outputValues =
     (let unit = fst p; u = getUnit us unit in
      if u \<noteq> Undefined
      then setProp outputValues unit (js_add (zeroOf u) (js_mul (scalingOf u) (snd p)))
      else outputValues)"

definition outputValuesFor :: "units \<Rightarrow> jsobj \<Rightarrow> jsobj" where
  "outputValuesFor us inputValues = fold (outputStep us) inputValues []"

text \<open>The body of the loop of \<open>inputValuesFor\<close>.\<close>

definition inputStep :: "units \<Rightarrow> string \<times> jsnum \<Rightarrow> jsobj \<Rightarrow> jsobj" where
  "inputStep us p inputValues =
     (let unit = fst p; u = getUnit us unit in
      if u \<noteq> Undefined
      then setProp inputValues unit (js_div (js_sub (snd p) (zeroOf u)) (scalingOf u))
      else inputValues)"

definition inputValuesFor :: "units \<Rightarrow> jsobj \<Rightarrow> jsobj" where
  "inputValuesFor us outputValues = fold (inputStep us) outputValues []"

section \<open>Strings and numbers\<close>

text \<open>
  A string is a list of code units below 256. \<open>Number(s)\<close> on a string follows the
  grammar of ECMAScript's StringToNumber: surrounding white space is dropped, the empty
  string is 0, then come the unsigned literals in base 16, 8 and 2 and the signed decimal
  literals with fraction and exponent and \<open>Infinity\<close>; everything else is NaN.
\<close>

definition isStrWhiteSpaceChar :: "char \<Rightarrow> bool" where
  "isStrWhiteSpaceChar c =
     (c \<in> set [CHR 0x09, CHR 0x0A, CHR 0x0B, CHR 0x0C, CHR 0x0D, CHR 0x20, CHR 0xA0])"

definition trimString :: "string \<Rightarrow> string" where
  "trimString s =
     rev (dropWhile isStrWhiteSpaceChar (rev (dropWhile isStrWhiteSpaceChar s)))"

definition digitValue :: "char \<Rightarrow> nat option" where
  "digitValue c =
     (let n = (of_char c :: nat) in
      if 48 \<le> n \<and> n \<le> 57 then Some (n - 48)
      else if 97 \<le> n \<and> n \<le> 102 then Some (n - 87)
      else if 65 \<le> n \<and> n \<le> 70 then Some (n - 55)
      else None)"

definition isDigitOf :: "nat \<Rightarrow> char \<Rightarrow> bool" where
  "isDigitOf base c = (case digitValue c of Some d \<Rightarrow> d < base | None \<Rightarrow> False)"

definition digitsValue :: "nat \<Rightarrow> string \<Rightarrow> nat" where
  "digitsValue base s =
     foldl (\<lambda>acc c. acc * base + (case digitValue c of Some d \<Rightarrow> d | None \<Rightarrow> 0)) 0 s"

text \<open>A non-empty run of digits of the base, and nothing else.\<close>

definition digitsOnly :: "nat \<Rightarrow> string \<Rightarrow> nat option" where
  "digitsOnly base s =
     (if s \<noteq> [] \<and> list_all (isDigitOf base) s then Some (digitsValue base s) else None)"

definition nonDecimalLiteral :: "string \<Rightarrow> nat option" where
  "nonDecimalLiteral s =
     (case s of
        c0 # c1 # ds \<Rightarrow>
          if c0 \<noteq> CHR ''0'' then None
          else if c1 = CHR ''x'' \<or> c1 = CHR ''X'' then digitsOnly 16 ds
          else if c1 = CHR ''o'' \<or> c1 = CHR ''O'' then digitsOnly 8 ds
          else if c1 = CHR ''b'' \<or> c1 = CHR ''B'' then digitsOnly 2 ds
          else None
      | _ \<Rightarrow> None)"

definition exponentPart :: "string \<Rightarrow> int option" where
  "exponentPart s =
     (case s of
        [] \<Rightarrow> None
      | c # t \<Rightarrow>
          if c = CHR ''e'' \<or> c = CHR ''E'' then
            (case t of
               [] \<Rightarrow> None
             | sg # ds \<Rightarrow>
                 if sg = CHR ''+'' then map_option int (digitsOnly 10 ds)
                 else if sg = CHR ''-'' then map_option (\<lambda>e. - int e) (digitsOnly 10 ds)
                 else map_option int (digitsOnly 10 t))
          else None)"

definition strUnsignedDecimalLiteral :: "string \<Rightarrow> jsnum option" where
  "strUnsignedDecimalLiteral s =
     (if s = ''Infinity'' then Some PInf
      else
        let ip = takeWhile (isDigitOf 10) s;
            r1 = dropWhile (isDigitOf 10) s;
            dot = (r1 \<noteq> [] \<and> hd r1 = CHR ''.'');
            fp = (if dot then takeWhile (isDigitOf 10) (tl r1) else []);
            r2 = (if dot then dropWhile (isDigitOf 10) (tl r1) else r1);
            mant = real (digitsValue 10 (ip @ fp)) / 10 ^ length fp
        in if ip = [] \<and> fp = [] then None
           else if r2 = [] then Some (Num mant)
           else (case exponentPart r2 of
                   None \<Rightarrow> None
                 | Some e \<Rightarrow>
                     Some (Num (if 0 \<le> e then mant * 10 ^ nat e else mant / 10 ^ nat (- e)))))"

definition strDecimalLiteral :: "string \<Rightarrow> jsnum option" where
  "strDecimalLiteral s =
     (case s of
        [] \<Rightarrow> None
      | c # t \<Rightarrow>
          if c = CHR ''+'' then strUnsignedDecimalLiteral t
          else if c = CHR ''-'' then map_option js_neg (strUnsignedDecimalLiteral t)
          else strUnsignedDecimalLiteral s)"

text \<open>\<open>Number(s)\<close> for a string \<open>s\<close>.\<close>

definition stringToNumber :: "string \<Rightarrow> jsnum" where
  "stringToNumber s =
     (let t = trimString s in
      if t = [] then Num 0
      else (case nonDecimalLiteral t of
              Some n \<Rightarrow> Num (real n)
            | None \<Rightarrow> (case strDecimalLiteral t of Some x \<Rightarrow> x | None \<Rightarrow> NaN)))"

text \<open>
  The string of a block id, as \<open>setData\<close> converts its second argument: the decimal
  numeral of a natural number (JavaScript writes integers from \<open>10^21\<close> on with an
  exponent, far beyond the ids a run can reach).
\<close>

definition digitChar :: "nat \<Rightarrow> char" where
  "digitChar d = char_of (48 + d)"

fun numberToString :: "nat \<Rightarrow> string" where
  "numberToString n =
     (if n < 10 then [digitChar n] else numberToString (n div 10) @ [digitChar (n mod 10)])"

declare numberToString.simps [simp del]

section \<open>NoteBlock\<close>

text \<open>
  The state of the generator object \<open>NoteBlock.idGenerator\<close>: not yet started, or
  suspended at its \<open>yield\<close> with the local variable \<open>i\<close> holding the value it yielded.
\<close>

datatype generator = Unstarted | Yielded nat

text \<open>
  \<open>NoteBlock.nextId\<close>: the first \<open>next()\<close> runs the body to the first \<open>yield\<close>; every
  later one resumes after the \<open>yield\<close>, increments \<open>i\<close> and yields again.
\<close>

definition nextId :: "generator \<Rightarrow> nat \<times> generator" where
  "nextId gen =
     (case gen of
        Unstarted \<Rightarrow> (0, Yielded 0)
      | Yielded i \<Rightarrow> (i + 1, Yielded (i + 1)))"

text \<open>
  A style length is the string \<open>value + unit\<close>; it is kept as its two parts, the value
  being a number or \<open>undefined\<close> (\<open>None\<close>).
\<close>

type_synonym css_length = "jsnum option \<times> string"

record element =
  position :: string
  height :: css_length
  width :: css_length
  left :: css_length
  top_s :: css_length
  background :: string
  draggable :: string
  dragstart :: bool

record noteBlock =
  id_b :: nat
  element :: element

text \<open>The constructor of NoteBlock, with the generator it advances.\<close>

definition NoteBlock_new ::
  "jsnum option \<Rightarrow> jsnum option \<Rightarrow> jsnum option \<Rightarrow> jsnum option \<Rightarrow> string \<Rightarrow> generator
   \<Rightarrow> noteBlock \<times> generator" where
  "NoteBlock_new top' left' height' width' unit gen =
     (let (i, gen') = nextId gen in
      (\<lparr>id_b = i,
        element = \<lparr>position = ''absolute'',
                   height = (height', unit),
                   width = (width', unit),
                   left = (left', unit),
                   top_s = (top', unit),
                   background = ''blue'',
                   draggable = ''true'',
                   dragstart = True\<rparr>\<rparr>,
       gen'))"

text \<open>\<open>displayOn\<close>: the element becomes the last child of the surface.\<close>

record surface =
  stylePosition :: string
  listeners :: "string list"
  children :: "element list"

definition displayOn :: "noteBlock \<Rightarrow> surface \<Rightarrow> surface" where
  "displayOn block s = s\<lparr>children := children s @ [element block]\<rparr>"

section \<open>Drag events\<close>

text \<open>
  The data of a drag: the list of its items, format and string. \<open>getData\<close> gives the
  empty string for a format that has no item.
\<close>

type_synonym dataTransfer = "(string \<times> string) list"

definition getData :: "dataTransfer \<Rightarrow> string \<Rightarrow> string" where
  "getData dt format = (case map_of dt format of None \<Rightarrow> [] | Some data \<Rightarrow> data)"

definition setData :: "dataTransfer \<Rightarrow> string \<Rightarrow> string \<Rightarrow> dataTransfer" where
  "setData dt format data = AList.update format data dt"

text \<open>
  The \<open>dataTransfer\<close> of an event made by a script may be \<open>null\<close> (\<open>None\<close>); a method
  call on it then throws a TypeError.
\<close>

record dragEvent =
  dataTransfer :: "dataTransfer option"
  clientX :: real

datatype error = TypeError

definition dragListener :: "noteBlock \<Rightarrow> dragEvent \<Rightarrow> error + dragEvent" where
  "dragListener block e =
     (case dataTransfer e of
        None \<Rightarrow> Inl TypeError
      | Some dt \<Rightarrow>
          Inr (e\<lparr>dataTransfer :=
                   Some (setData dt ''application/note-id'' (numberToString (id_b block)))\<rparr>))"

section \<open>NoteDisplay\<close>

record Note =
  start :: real
  length_n :: real
  number :: int

text \<open>
  The note sequence is not part of the file. It is represented by what the display asks
  of it: \<open>getNotes\<close> answers with a list of notes for a window of beats, and every call
  of \<open>moveNote\<close> is recorded with its two arguments, \<open>None\<close> standing for \<open>undefined\<close>.
\<close>

record sequence =
  getNotes :: "real \<Rightarrow> real \<Rightarrow> Note list"
  moveNoteCalls :: "(Note option \<times> jsnum option) list"

definition moveNote :: "Note option \<Rightarrow> jsnum option \<Rightarrow> sequence \<Rightarrow> sequence" where
  "moveNote n newStart s = s\<lparr>moveNoteCalls := moveNoteCalls s @ [(n, newStart)]\<rparr>"

record noteDisplay =
  surface :: surface
  sequence :: sequence
  xSize :: jsnum
  ySize :: jsnum
  blocks :: "jsnum \<rightharpoonup> noteBlock"
  notes_m :: "jsnum \<rightharpoonup> Note"
  converter :: units

text \<open>\<open>addSurfaceListeners\<close>.\<close>

definition addSurfaceListeners :: "surface \<Rightarrow> surface" where
  "addSurfaceListeners s = s\<lparr>listeners := listeners s @ [''dragenter'', ''dragover'', ''drop'']\<rparr>"

text \<open>The configuration that the constructor gives to its LinearScaler.\<close>

definition converterUnits :: units where
  "converterUnits =
     [(''beat'', \<lparr>zero = 40, scaling = 40\<rparr>),
      (''pitch'', \<lparr>zero = 400, scaling = - 20\<rparr>)]"

text \<open>
  The constructor. An argument that is left out (\<open>None\<close>) takes its default, 40 for
  \<open>xSize\<close> and 20 for \<open>ySize\<close>.
\<close>

definition NoteDisplay_new ::
  "surface \<Rightarrow> sequence \<Rightarrow> jsnum option \<Rightarrow> jsnum option \<Rightarrow> noteDisplay" where
  "NoteDisplay_new noteSurface noteSequence xSize' ySize' =
     \<lparr>surface = addSurfaceListeners (noteSurface\<lparr>stylePosition := ''relative''\<rparr>),
      sequence = noteSequence,
      xSize = (case xSize' of None \<Rightarrow> Num 40 | Some x \<Rightarrow> x),
      ySize = (case ySize' of None \<Rightarrow> Num 20 | Some y \<Rightarrow> y),
      blocks = Map.empty,
      notes_m = Map.empty,
      converter = converterUnits\<rparr>"

text \<open>
  A property read \<open>obj.beat\<close> or \<open>obj.pitch\<close> on a result of the converter: the own
  property of that name, or \<open>undefined\<close> (\<open>None\<close>), since \<open>Object.prototype\<close> has neither
  name. An operand of \<open>-\<close> that is \<open>undefined\<close> becomes NaN.
\<close>

definition getProp :: "jsobj \<Rightarrow> string \<Rightarrow> jsnum option" where
  "getProp obj k = map_of obj k"

definition toNumber :: "jsnum option \<Rightarrow> jsnum" where
  "toNumber v = (case v of None \<Rightarrow> NaN | Some x \<Rightarrow> x)"

text \<open>The body of the loop of \<open>drawNotes\<close>, for one note.\<close>

definition drawNote :: "Note \<Rightarrow> generator \<times> noteDisplay \<Rightarrow> generator \<times> noteDisplay" where
  "drawNote n gd =
     (let gen = fst gd; d = snd gd;
          startPosition = outputValuesFor (converter d)
            [(''beat'', Num (start n)), (''pitch'', Num (real_of_int (number n)))];
          endPosition = outputValuesFor (converter d)
            [(''beat'', js_add (Num (start n)) (Num (length_n n))),
             (''pitch'', js_add (Num (real_of_int (number n))) (Num 1))];
          (block, gen') = NoteBlock_new
            (getProp startPosition ''pitch'')
            (getProp startPosition ''beat'')
            (Some (js_abs (js_sub (toNumber (getProp endPosition ''pitch''))
                                  (toNumber (getProp startPosition ''pitch'')))))
            (Some (js_abs (js_sub (toNumber (getProp endPosition ''beat''))
                                  (toNumber (getProp startPosition ''beat'')))))
            ''px'' gen
      in (gen',
          d\<lparr>blocks := (blocks d)(Num (real (id_b block)) \<mapsto> block),
            notes_m := (notes_m d)(Num (real (id_b block)) \<mapsto> n),
            surface := displayOn block (surface d)\<rparr>))"

definition drawNotes :: "noteDisplay \<Rightarrow> generator \<Rightarrow> generator \<times> noteDisplay" where
  "drawNotes d gen = fold drawNote (getNotes (sequence d) 0 8) (gen, d)"

definition dropListener :: "dragEvent \<Rightarrow> noteDisplay \<Rightarrow> error + noteDisplay" where
  "dropListener event d =
     (case dataTransfer event of
        None \<Rightarrow> Inl TypeError
      | Some dt \<Rightarrow>
          (let blockId = stringToNumber (getData dt ''application/note-id'')
           in Inr (d\<lparr>sequence :=
                       moveNote (notes_m d blockId)
                         (getProp (inputValuesFor (converter d) [(''beat'', Num (clientX event))])
                            ''beat'')
                         (sequence d)\<rparr>)))"

section \<open>The states a display can be in\<close>

text \<open>
  A state is the generator, which all blocks of the process share, and one display. The
  display starts from its constructor, at any state of the generator; then notes are
  drawn, drops are handled, blocks are constructed elsewhere (for another display), and
  the note sequence changes on its own.
\<close>

inductive reachable :: "generator \<times> noteDisplay \<Rightarrow> bool" where
  constructed: "reachable (gen, NoteDisplay_new noteSurface noteSequence xSize' ySize')"
| drawn: "reachable (gen, d) \<Longrightarrow> reachable (drawNotes d gen)"
| dropped: "reachable (gen, d) \<Longrightarrow> dropListener event d = Inr d' \<Longrightarrow> reachable (gen, d')"
| elsewhere: "reachable (gen, d) \<Longrightarrow> reachable (snd (nextId gen), d)"
| sequence_changed: "reachable (gen, d) \<Longrightarrow> reachable (gen, d\<lparr>sequence := s\<rparr>)"

text \<open>The ids the generator has given out so far.\<close>

fun issued :: "generator \<Rightarrow> nat \<Rightarrow> bool" where
  "issued Unstarted i = False"
| "issued (Yielded m) i = (i \<le> m)"

text \<open>Constructing one block after the other, from a list of constructor arguments.\<close>

type_synonym blockArgs = "jsnum option \<times> jsnum option \<times> jsnum option \<times> jsnum option \<times> string"

fun newBlocks :: "blockArgs list \<Rightarrow> generator \<Rightarrow> noteBlock list \<times> generator" where
  "newBlocks [] gen = ([], gen)"
| "newBlocks ((t, l, h, w, u) # rest) gen =
     (let (block, gen') = NoteBlock_new t l h w u gen;
          (bs, gen'') = newBlocks rest gen'
      in (block # bs, gen''))"

text \<open>
  What holds of every state a display can be in: each key of \<open>blocks\<close> is the id of its
  block, an id the generator has given out; the converter is the constructor's; and the
  two maps have the same keys.
\<close>

definition keysIssued :: "generator \<times> noteDisplay \<Rightarrow> bool" where
  "keysIssued gd =
     (\<forall>k b. blocks (snd gd) k = Some b \<longrightarrow>
        k = Num (real (id_b b)) \<and> issued (fst gd) (id_b b))"

definition displayInv :: "generator \<times> noteDisplay \<Rightarrow> bool" where
  "displayInv gd =
     (keysIssued gd \<and> converter (snd gd) = converterUnits \<and>
      dom (blocks (snd gd)) = dom (notes_m (snd gd)))"

subsection \<open>A scenario\<close>

text \<open>
  A sequence with three notes in the window, an empty surface, and the display
  constructed with its defaults, before and after \<open>drawNotes\<close> in a fresh process.
\<close>

definition threeNotes :: sequence where
  "threeNotes =
     \<lparr>getNotes = (\<lambda>startBeat endBeat.
         [\<lparr>start = 0, length_n = 2, number = 60\<rparr>,
          \<lparr>start = 2, length_n = 1, number = 62\<rparr>,
          \<lparr>start = 3, length_n = 4, number = 64\<rparr>]),
      moveNoteCalls = []\<rparr>"

definition emptySurface :: surface where
  "emptySurface = \<lparr>stylePosition = [], listeners = [], children = []\<rparr>"

definition display0 :: noteDisplay where
  "display0 = NoteDisplay_new emptySurface threeNotes None None"

definition drawn0 :: "generator \<times> noteDisplay" where
  "drawn0 = drawNotes display0 Unstarted"

text \<open>The block that the constructor makes for an id and four pixel values.\<close>

definition blockAt :: "nat \<Rightarrow> real \<Rightarrow> real \<Rightarrow> real \<Rightarrow> real \<Rightarrow> noteBlock" where
  "blockAt i t l h w =
     \<lparr>id_b = i,
      element = \<lparr>position = ''absolute'',
                 height = (Some (Num h), ''px''),
                 width = (Some (Num w), ''px''),
                 left = (Some (Num l), ''px''),
                 top_s = (Some (Num t), ''px''),
                 background = ''blue'',
                 draggable = ''true'',
                 dragstart = True\<rparr>\<rparr>"

section \<open>Properties of the conversions\<close>

lemma keys_setProp:
  "''__proto__'' \<notin> fst ` set obj \<Longrightarrow>
   fst ` set (setProp obj k v) = (if k = ''__proto__'' then fst ` set obj else insert k (fst ` set obj))"
  by (auto simp: setProp_def AList.dom_update map_of_eq_None_iff)

lemma keys_outputStep:
  "''__proto__'' \<notin> fst ` set acc \<Longrightarrow>
   fst ` set (outputStep us p acc) =
     (if fst p \<noteq> ''__proto__'' \<and> getUnit us (fst p) \<noteq> Undefined
      then insert (fst p) (fst ` set acc) else fst ` set acc)"
  by (simp add: outputStep_def Let_def keys_setProp)

lemma keys_fold_outputStep:
  "''__proto__'' \<notin> fst ` set acc \<Longrightarrow>
   fst ` set (fold (outputStep us) vs acc) =
     fst ` set acc \<union> {u \<in> fst ` set vs. u \<noteq> ''__proto__'' \<and> getUnit us u \<noteq> Undefined}"
proof (induction vs arbitrary: acc)
  case Nil
  then show ?case by simp
next
  case (Cons p vs)
  have "''__proto__'' \<notin> fst ` set (outputStep us p acc)"
    using Cons.prems by (auto simp: keys_outputStep)
  from Cons.IH [OF this] show ?case
    using Cons.prems by (auto simp: keys_outputStep)
qed

lemma keys_inputStep:
  "''__proto__'' \<notin> fst ` set acc \<Longrightarrow>
   fst ` set (inputStep us p acc) =
     (if fst p \<noteq> ''__proto__'' \<and> getUnit us (fst p) \<noteq> Undefined
      then insert (fst p) (fst ` set acc) else fst ` set acc)"
  by (simp add: inputStep_def Let_def keys_setProp)

lemma keys_fold_inputStep:
  "''__proto__'' \<notin> fst ` set acc \<Longrightarrow>
   fst ` set (fold (inputStep us) vs acc) =
     fst ` set acc \<union> {u \<in> fst ` set vs. u \<noteq> ''__proto__'' \<and> getUnit us u \<noteq> Undefined}"
proof (induction vs arbitrary: acc)
  case Nil
  then show ?case by simp
next
  case (Cons p vs)
  have "''__proto__'' \<notin> fst ` set (inputStep us p acc)"
    using Cons.prems by (auto simp: keys_inputStep)
  from Cons.IH [OF this] show ?case
    using Cons.prems by (auto simp: keys_inputStep)
qed

lemma getUnit_Undefined:
  "getUnit us u \<noteq> Undefined \<longleftrightarrow> u \<in> fst ` set us \<or> u \<in> set objectPrototypeNames"
  by (simp add: getUnit_def dom_map_of_conv_image_fst [symmetric] domIff split: option.splits)

section \<open>Block ids as strings\<close>

lemma digitValue_digitChar: "d < 10 \<Longrightarrow> digitValue (digitChar d) = Some d"
  by (simp add: digitValue_def digitChar_def Let_def)

lemma isDigitOf_digitChar: "d < 10 \<Longrightarrow> isDigitOf 10 (digitChar d)"
  by (simp add: isDigitOf_def digitValue_digitChar)

lemma numberToString_digits: "list_all (isDigitOf 10) (numberToString n)"
proof (induction n rule: numberToString.induct)
  case (1 n)
  show ?case
  proof (cases "n < 10")
    case True
    then show ?thesis by (simp add: numberToString.simps [of n] isDigitOf_digitChar)
  next
    case False
    with 1 show ?thesis by (simp add: numberToString.simps [of n] isDigitOf_digitChar)
  qed
qed

lemma numberToString_nonempty: "numberToString n \<noteq> []"
  by (simp add: numberToString.simps [of n])

lemma digitsValue_snoc:
  "digitsValue b (s @ [c]) = digitsValue b s * b + (case digitValue c of Some d \<Rightarrow> d | None \<Rightarrow> 0)"
  by (simp add: digitsValue_def)

lemma digitsValue_numberToString: "digitsValue 10 (numberToString n) = n"
proof (induction n rule: numberToString.induct)
  case (1 n)
  show ?case
  proof (cases "n < 10")
    case True
    then show ?thesis
      by (simp add: numberToString.simps [of n] digitsValue_def digitValue_digitChar)
  next
    case False
    with 1 have "digitsValue 10 (numberToString (n div 10)) = n div 10" by simp
    with False show ?thesis
      by (simp add: numberToString.simps [of n] digitsValue_snoc digitValue_digitChar)
  qed
qed

lemma digit_not_space: "isDigitOf 10 c \<Longrightarrow> \<not> isStrWhiteSpaceChar c"
  by (auto simp: isStrWhiteSpaceChar_def isDigitOf_def digitValue_def Let_def)

lemma digit_not_letter:
  "isDigitOf 10 c \<Longrightarrow> c \<notin> set ''xXoObBI+-''"
  by (auto simp: isDigitOf_def digitValue_def Let_def)

lemma trimString_digits:
  assumes "list_all (isDigitOf 10) s"
  shows "trimString s = s"
proof -
  have a: "dropWhile isStrWhiteSpaceChar s = s"
    using assms by (cases s) (auto simp: digit_not_space)
  have "list_all (isDigitOf 10) (rev s)" using assms by (simp add: list_all_iff)
  then have b: "dropWhile isStrWhiteSpaceChar (rev s) = rev s"
    by (cases "rev s") (auto simp: digit_not_space)
  show ?thesis by (simp add: trimString_def a b)
qed

lemma nonDecimalLiteral_digits:
  assumes "list_all (isDigitOf 10) s"
  shows "nonDecimalLiteral s = None"
proof (cases s)
  case Nil
  then show ?thesis by (simp add: nonDecimalLiteral_def)
next
  case (Cons c0 t)
  show ?thesis
  proof (cases t)
    case Nil
    with Cons show ?thesis by (simp add: nonDecimalLiteral_def)
  next
    case (Cons c1 ds)
    with assms \<open>s = c0 # t\<close> have "isDigitOf 10 c1" by simp
    from digit_not_letter [OF this] show ?thesis
      using Cons \<open>s = c0 # t\<close> by (simp add: nonDecimalLiteral_def)
  qed
qed

lemma strUnsignedDecimalLiteral_digits:
  assumes "list_all (isDigitOf 10) s" and "s \<noteq> []"
  shows "strUnsignedDecimalLiteral s = Some (Num (real (digitsValue 10 s)))"
proof -
  obtain c t where s: "s = c # t" using assms(2) by (cases s) auto
  with assms(1) have "isDigitOf 10 c" by simp
  from digit_not_letter [OF this] have inf: "s \<noteq> ''Infinity''" using s by auto
  have tw: "takeWhile (isDigitOf 10) s = s"
    using assms(1) by (simp add: list_all_iff)
  have dw: "dropWhile (isDigitOf 10) s = []"
    using assms(1) by (simp add: list_all_iff)
  show ?thesis
    by (simp add: strUnsignedDecimalLiteral_def Let_def tw dw inf assms(2))
qed

lemma strDecimalLiteral_digits:
  assumes "list_all (isDigitOf 10) s" and "s \<noteq> []"
  shows "strDecimalLiteral s = Some (Num (real (digitsValue 10 s)))"
proof -
  obtain c t where s: "s = c # t" using assms(2) by (cases s) auto
  with assms(1) have "isDigitOf 10 c" by simp
  from digit_not_letter [OF this] have "c \<noteq> CHR ''+''" "c \<noteq> CHR ''-''" by auto
  then have "strDecimalLiteral s = strUnsignedDecimalLiteral s"
    using s by (simp add: strDecimalLiteral_def)
  then show ?thesis using strUnsignedDecimalLiteral_digits [OF assms] by simp
qed

lemma stringToNumber_numberToString: "stringToNumber (numberToString n) = Num (real n)"
  using numberToString_digits [of n] numberToString_nonempty [of n]
  by (simp add: stringToNumber_def trimString_digits nonDecimalLiteral_digits
      strDecimalLiteral_digits digitsValue_numberToString)

lemma stringToNumber_7: "stringToNumber ''7'' = Num 7"
  by code_simp

lemma stringToNumber_empty: "stringToNumber [] = Num 0"
  by (simp add: stringToNumber_def trimString_def)

lemma numberToString_0: "numberToString 0 = ''0''"
  by code_simp

lemma numberToString_1: "numberToString (Suc 0) = ''1''"
  by code_simp

section \<open>The generator and the loop of drawNotes\<close>

lemma issued_nextId_fresh: "\<not> issued gen (fst (nextId gen))"
  by (cases gen) (simp_all add: nextId_def)

lemma issued_nextId: "issued (snd (nextId gen)) i \<longleftrightarrow> issued gen i \<or> i = fst (nextId gen)"
  by (cases gen) (auto simp: nextId_def)

lemma id_NoteBlock_new: "id_b (fst (NoteBlock_new t l h w u gen)) = fst (nextId gen)"
  by (simp add: NoteBlock_new_def split: prod.splits)

lemma gen_NoteBlock_new: "snd (NoteBlock_new t l h w u gen) = snd (nextId gen)"
  by (simp add: NoteBlock_new_def split: prod.splits)

lemma drawNote_gen: "fst (drawNote n (gen, d)) = snd (nextId gen)"
  by (simp add: drawNote_def Let_def gen_NoteBlock_new split: prod.splits)
     (metis gen_NoteBlock_new snd_conv)

lemma drawNote_blocks:
  "\<exists>b. id_b b = fst (nextId gen) \<and>
     blocks (snd (drawNote n (gen, d))) = (blocks d)(Num (real (fst (nextId gen))) \<mapsto> b)"
  by (simp add: drawNote_def Let_def split: prod.splits)
     (metis id_NoteBlock_new fst_conv)

lemma drawNote_notes:
  "notes_m (snd (drawNote n (gen, d))) = (notes_m d)(Num (real (fst (nextId gen))) \<mapsto> n)"
  by (simp add: drawNote_def Let_def split: prod.splits)
     (metis id_NoteBlock_new fst_conv)

lemma drawNote_converter: "converter (snd (drawNote n gd)) = converter (snd gd)"
  by (simp add: drawNote_def Let_def split: prod.splits)

lemma drawNote_sequence: "sequence (snd (drawNote n gd)) = sequence (snd gd)"
  by (simp add: drawNote_def Let_def split: prod.splits)

lemma newBlocks_ids:
  "map id_b (fst (newBlocks args gen)) = [fst (nextId gen) ..< fst (nextId gen) + length args]"
proof (induction args gen rule: newBlocks.induct)
  case (1 gen)
  show ?case by simp
next
  case (2 t l h w u rest gen)
  obtain block gen' where nb: "NoteBlock_new t l h w u gen = (block, gen')"
    by (cases "NoteBlock_new t l h w u gen")
  then have b: "id_b block = fst (nextId gen)" and g: "gen' = snd (nextId gen)"
    using id_NoteBlock_new [of t l h w u gen] gen_NoteBlock_new [of t l h w u gen] by simp_all
  have n: "fst (nextId gen') = Suc (fst (nextId gen))"
    unfolding g by (cases gen) (simp_all add: nextId_def)
  from 2 [OF nb [symmetric] refl] n
  have ih: "map id_b (fst (newBlocks rest gen')) =
      [Suc (fst (nextId gen)) ..< Suc (fst (nextId gen)) + length rest]" by simp
  have "fst (newBlocks ((t, l, h, w, u) # rest) gen) = block # fst (newBlocks rest gen')"
    by (simp add: nb split: prod.splits)
  then have "map id_b (fst (newBlocks ((t, l, h, w, u) # rest) gen)) =
      fst (nextId gen) # [Suc (fst (nextId gen)) ..< Suc (fst (nextId gen)) + length rest]"
    by (simp only: list.map b ih)
  also have "\<dots> = [fst (nextId gen) ..< fst (nextId gen) + length ((t, l, h, w, u) # rest)]"
    by (rule sym, subst upt_conv_Cons) simp_all
  finally show ?case .
qed

lemma newBlocks_gen:
  "fst (nextId (snd (newBlocks args gen))) = fst (nextId gen) + length args"
proof (induction args gen rule: newBlocks.induct)
  case (1 gen)
  show ?case by simp
next
  case (2 t l h w u rest gen)
  obtain block gen' where nb: "NoteBlock_new t l h w u gen = (block, gen')"
    by (cases "NoteBlock_new t l h w u gen")
  then have g: "gen' = snd (nextId gen)"
    using gen_NoteBlock_new [of t l h w u gen] by simp
  have n: "fst (nextId gen') = Suc (fst (nextId gen))"
    unfolding g by (cases gen) (simp_all add: nextId_def)
  from 2 [OF nb [symmetric] refl] n
  have "fst (nextId (snd (newBlocks rest gen'))) = Suc (fst (nextId gen)) + length rest"
    by simp
  moreover have "snd (newBlocks ((t, l, h, w, u) # rest) gen) = snd (newBlocks rest gen')"
    by (simp add: nb split: prod.splits)
  ultimately show ?case by simp
qed

section \<open>The invariant of a display\<close>

lemma Num_real_inj: "Num (real i) = Num (real j) \<longleftrightarrow> i = j"
  by simp

lemma fresh_key:
  assumes "keysIssued (gen, d)"
  shows "blocks d (Num (real (fst (nextId gen)))) = None"
proof (rule ccontr)
  assume "blocks d (Num (real (fst (nextId gen)))) \<noteq> None"
  then obtain b where b: "blocks d (Num (real (fst (nextId gen)))) = Some b" by auto
  with assms have "Num (real (fst (nextId gen))) = Num (real (id_b b))" and "issued gen (id_b b)"
    by (auto simp: keysIssued_def)
  then have "issued gen (fst (nextId gen))" by simp
  then show False by (simp add: issued_nextId_fresh)
qed

lemma drawNote_keysIssued:
  assumes "keysIssued (gen, d)"
  shows "keysIssued (drawNote n (gen, d))"
proof -
  obtain b where b: "id_b b = fst (nextId gen)"
    and bl: "blocks (snd (drawNote n (gen, d))) = (blocks d)(Num (real (fst (nextId gen))) \<mapsto> b)"
    using drawNote_blocks by blast
  show ?thesis
    unfolding keysIssued_def
  proof (intro allI impI)
    fix k c
    assume "blocks (snd (drawNote n (gen, d))) k = Some c"
    then have "(k = Num (real (fst (nextId gen))) \<and> c = b) \<or> blocks d k = Some c"
      by (auto simp: bl split: if_splits)
    then show "k = Num (real (id_b c)) \<and> issued (fst (drawNote n (gen, d))) (id_b c)"
      using assms b by (auto simp: keysIssued_def drawNote_gen issued_nextId)
  qed
qed

lemma drawNote_displayInv:
  assumes "displayInv gd"
  shows "displayInv (drawNote n gd)"
proof -
  obtain gen d where gd: "gd = (gen, d)" by (cases gd)
  obtain b where bl: "blocks (snd (drawNote n (gen, d))) = (blocks d)(Num (real (fst (nextId gen))) \<mapsto> b)"
    using drawNote_blocks by blast
  have "keysIssued (drawNote n (gen, d))"
    using assms gd by (simp add: displayInv_def drawNote_keysIssued)
  moreover have "converter (snd (drawNote n (gen, d))) = converterUnits"
    using assms gd by (simp add: displayInv_def drawNote_converter)
  moreover have "dom (blocks (snd (drawNote n (gen, d)))) = dom (notes_m (snd (drawNote n (gen, d))))"
    using assms gd by (simp add: displayInv_def bl drawNote_notes)
  ultimately show ?thesis by (simp add: displayInv_def gd)
qed

lemma fold_drawNote_displayInv: "displayInv gd \<Longrightarrow> displayInv (fold drawNote ns gd)"
  by (induction ns arbitrary: gd) (simp_all add: drawNote_displayInv)

lemma dropListener_Inr:
  assumes "dropListener event d = Inr d'"
  shows "\<exists>s. d' = d\<lparr>sequence := s\<rparr>"
  using assms by (auto simp: dropListener_def Let_def split: option.splits)

lemma reachable_displayInv: "reachable gd \<Longrightarrow> displayInv gd"
proof (induction rule: reachable.induct)
  case (constructed gen noteSurface noteSequence xSize' ySize')
  show ?case
    by (simp add: displayInv_def keysIssued_def NoteDisplay_new_def converterUnits_def)
next
  case (drawn gen d)
  then show ?case by (simp add: drawNotes_def fold_drawNote_displayInv)
next
  case (dropped gen d event d')
  from dropListener_Inr [OF dropped.hyps(2)] obtain s where "d' = d\<lparr>sequence := s\<rparr>" ..
  with dropped.IH show ?case by (simp add: displayInv_def keysIssued_def)
next
  case (elsewhere gen d)
  then show ?case by (auto simp: displayInv_def keysIssued_def issued_nextId)
next
  case (sequence_changed gen d s)
  then show ?case by (simp add: displayInv_def keysIssued_def)
qed

lemma drawNote_keeps:
  assumes "displayInv (gen, d)"
  shows "blocks d \<subseteq>\<^sub>m blocks (snd (drawNote n (gen, d))) \<and>
         notes_m d \<subseteq>\<^sub>m notes_m (snd (drawNote n (gen, d)))"
proof -
  obtain b where bl: "blocks (snd (drawNote n (gen, d))) = (blocks d)(Num (real (fst (nextId gen))) \<mapsto> b)"
    using drawNote_blocks by blast
  have f: "blocks d (Num (real (fst (nextId gen)))) = None"
    using assms by (simp add: displayInv_def fresh_key)
  then have "Num (real (fst (nextId gen))) \<notin> dom (notes_m d)"
    using assms by (auto simp: displayInv_def)
  then have f': "notes_m d (Num (real (fst (nextId gen)))) = None" by auto
  show ?thesis
    using f f' by (auto simp: bl drawNote_notes map_le_def)
qed

lemma fold_drawNote_keeps:
  "displayInv gd \<Longrightarrow>
   blocks (snd gd) \<subseteq>\<^sub>m blocks (snd (fold drawNote ns gd)) \<and>
   notes_m (snd gd) \<subseteq>\<^sub>m notes_m (snd (fold drawNote ns gd))"
proof (induction ns arbitrary: gd)
  case Nil
  show ?case by simp
next
  case (Cons n ns)
  obtain gen d where gd: "gd = (gen, d)" by (cases gd)
  have step: "blocks d \<subseteq>\<^sub>m blocks (snd (drawNote n (gen, d))) \<and>
         notes_m d \<subseteq>\<^sub>m notes_m (snd (drawNote n (gen, d)))"
    using Cons.prems gd drawNote_keeps by simp
  have "displayInv (drawNote n gd)" using Cons.prems by (rule drawNote_displayInv)
  from Cons.IH [OF this] step show ?case
    by (auto simp: gd intro: map_le_trans)
qed

section \<open>The drop listener\<close>

lemma inputValuesFor_beat:
  "inputValuesFor converterUnits [(''beat'', Num x)] = [(''beat'', Num ((x - 40) / 40))]"
  by (simp add: inputValuesFor_def inputStep_def getUnit_def converterUnits_def setProp_def
      js_sub_def)

lemma dropListener_call:
  assumes "displayInv (gen, d)" and "dataTransfer event = Some dt"
  shows "dropListener event d =
    Inr (d\<lparr>sequence := (sequence d)\<lparr>moveNoteCalls := moveNoteCalls (sequence d) @
      [(notes_m d (stringToNumber (getData dt ''application/note-id'')),
        Some (Num ((clientX event - 40) / 40)))]\<rparr>\<rparr>)"
proof -
  have "converter d = converterUnits" using assms(1) by (simp add: displayInv_def)
  then show ?thesis
    using assms(2)
    by (simp add: dropListener_def Let_def inputValuesFor_beat getProp_def moveNote_def)
qed

lemma dragListener_payload:
  assumes "dragListener block e = Inr e'"
  shows "\<exists>dt. dataTransfer e' = Some dt \<and>
           getData dt ''application/note-id'' = numberToString (id_b block)"
  using assms
  by (auto simp: dragListener_def getData_def setData_def AList.update_conv'
      split: option.splits)

lemma block_key:
  assumes "displayInv (gen, d)" and "blocks d k = Some block"
  shows "k = Num (real (id_b block))" and "\<exists>n. notes_m d k = Some n"
proof -
  show "k = Num (real (id_b block))"
    using assms by (simp add: displayInv_def keysIssued_def)
  have "k \<in> dom (notes_m d)" using assms by (auto simp: displayInv_def)
  then show "\<exists>n. notes_m d k = Some n" by auto
qed

section \<open>The scenario\<close>

lemma reachable_drawn0: "reachable (fst drawn0, snd drawn0)"
  unfolding drawn0_def display0_def
  using reachable.drawn [OF reachable.constructed] by simp

lemmas scenario_defs =
  drawn0_def display0_def drawNotes_def threeNotes_def emptySurface_def NoteDisplay_new_def
  drawNote_def Let_def outputValuesFor_def outputStep_def getUnit_def converterUnits_def
  setProp_def getProp_def toNumber_def js_sub_def NoteBlock_new_def nextId_def displayOn_def
  addSurfaceListeners_def

lemma drawn0_gen: "fst drawn0 = Yielded 2"
  by (simp add: scenario_defs)

lemma drawn0_notes:
  "notes_m (snd drawn0) =
     [Num 0 \<mapsto> \<lparr>start = 0, length_n = 2, number = 60\<rparr>,
      Num 1 \<mapsto> \<lparr>start = 2, length_n = 1, number = 62\<rparr>,
      Num 2 \<mapsto> \<lparr>start = 3, length_n = 4, number = 64\<rparr>]"
  by (simp add: scenario_defs)

lemma drawn0_blocks:
  "blocks (snd drawn0) =
     [Num 0 \<mapsto> blockAt 0 (- 800) 40 20 80,
      Num 1 \<mapsto> blockAt 1 (- 840) 120 20 40,
      Num 2 \<mapsto> blockAt 2 (- 880) 160 20 160]"
  by (simp add: scenario_defs blockAt_def numeral_2_eq_2)

section \<open>The claims\<close>

text \<open>
  C1. For a note with start 0, length 2 and number 60 the block is to have the width 80,
  the height 20, the left 40 and the top \<open>- 820\<close>, the lesser of the two pitch outputs.
  \<open>drawNotes\<close> departs from this in the top. It computes both corners, the start corner
  at the pixels (40, - 800) and the end corner at (120, - 820), and takes the two sizes
  from their absolute differences, as the negative scaling of the pitch requires; but it
  leaves the top at the pitch output of the start corner. The block it makes, for every
  surface, sequence state, size arguments and generator state, has the width, height and
  left above and the top \<open>- 800\<close>: it covers the pixels from \<open>- 800\<close> to \<open>- 780\<close>, outside
  the span from \<open>- 820\<close> to \<open>- 800\<close> of the two corners.
\<close>

theorem drawNotes_geometry:
  "blocks (snd (drawNotes (NoteDisplay_new s (q\<lparr>getNotes := \<lambda>startBeat endBeat.
        [\<lparr>start = 0, length_n = 2, number = 60\<rparr>]\<rparr>) xs ys) gen))
     (Num (real (fst (nextId gen)))) =
   Some \<lparr>id_b = fst (nextId gen),
      element = \<lparr>position = ''absolute'',
                 height = (Some (Num 20), ''px''),
                 width = (Some (Num 80), ''px''),
                 left = (Some (Num 40), ''px''),
                 top_s = (Some (Num (- 800)), ''px''),
                 background = ''blue'',
                 draggable = ''true'',
                 dragstart = True\<rparr>\<rparr> \<and>
   outputValuesFor (converter (NoteDisplay_new s q xs ys))
       [(''beat'', Num 0), (''pitch'', Num 60)] =
     [(''beat'', Num 40), (''pitch'', Num (- 800))] \<and>
   outputValuesFor (converter (NoteDisplay_new s q xs ys))
       [(''beat'', Num 2), (''pitch'', Num 61)] =
     [(''beat'', Num 120), (''pitch'', Num (- 820))]"
  by (cases gen)
    (simp_all add: drawNotes_def NoteDisplay_new_def drawNote_def Let_def
      outputValuesFor_def outputStep_def getUnit_def converterUnits_def setProp_def
      getProp_def toNumber_def js_sub_def NoteBlock_new_def nextId_def)

text \<open>
  In a fresh process the top of that block is not the \<open>- 820\<close> that the two corners
  call for.
\<close>

theorem top_counterexample:
  "map_option (top_s \<circ> element)
     (blocks (snd (drawNotes (NoteDisplay_new emptySurface
        (threeNotes\<lparr>getNotes := \<lambda>startBeat endBeat. [\<lparr>start = 0, length_n = 2, number = 60\<rparr>]\<rparr>)
        None None) Unstarted)) (Num 0))
   \<noteq> Some (Some (Num (- 820)), ''px'')"
  by (simp add: drawNotes_def NoteDisplay_new_def threeNotes_def drawNote_def Let_def
      outputValuesFor_def outputStep_def getUnit_def converterUnits_def setProp_def
      getProp_def toNumber_def js_sub_def NoteBlock_new_def nextId_def)

text \<open>
  The round trip of the conversions. For a unit that is configured with a scaling that is
  not zero, and every real \<open>v\<close>, converting \<open>{unit: v}\<close> to output values and back gives
  \<open>{unit: v}\<close> again, as long as the unit is not named \<open>__proto__\<close>.
\<close>

theorem round_trip:
  assumes "map_of us unit = Some c" and "scaling c \<noteq> 0" and "unit \<noteq> ''__proto__''"
  shows "inputValuesFor us (outputValuesFor us [(unit, Num v)]) = [(unit, Num v)]"
  using assms
  by (simp add: outputValuesFor_def outputStep_def inputValuesFor_def inputStep_def
      getUnit_def setProp_def js_sub_def)

text \<open>The round trip at pitch 60 of the display's converter.\<close>

theorem round_trip_witness:
  "map_of converterUnits ''pitch'' = Some \<lparr>zero = 400, scaling = - 20\<rparr> \<and>
   scaling \<lparr>zero = 400, scaling = - 20\<rparr> \<noteq> 0 \<and>
   ''pitch'' \<noteq> ''__proto__'' \<and>
   inputValuesFor converterUnits (outputValuesFor converterUnits [(''pitch'', Num 60)]) =
     [(''pitch'', Num 60)]"
  using round_trip [of converterUnits "''pitch''" "\<lparr>zero = 400, scaling = - 20\<rparr>" 60]
  by (simp add: converterUnits_def)


text \<open>
  C3. A drop whose data was set by the drag listener of a rendered block, at the
  horizontal pixel 200, makes exactly one call of \<open>moveNote\<close>: the record of calls grows
  by one entry, which holds the note stored under the key of that block and the new start
  \<open>(200 - 40) / 40 = 4\<close>.
\<close>

theorem dropListener_moves_dragged_note:
  assumes "reachable (gen, d)"
    and "blocks d k = Some block"
    and "dragListener block e = Inr e'"
    and "dataTransfer event = dataTransfer e'"
    and "clientX event = 200"
  shows "\<exists>n. notes_m d k = Some n \<and>
    dropListener event d =
      Inr (d\<lparr>sequence := (sequence d)\<lparr>moveNoteCalls :=
        moveNoteCalls (sequence d) @ [(Some n, Some (Num 4))]\<rparr>\<rparr>)"
proof -
  have inv: "displayInv (gen, d)" using assms(1) by (rule reachable_displayInv)
  from block_key [OF inv assms(2)] obtain n
    where k: "k = Num (real (id_b block))" and n: "notes_m d k = Some n" by auto
  from dragListener_payload [OF assms(3)] assms(4) obtain dt
    where dt: "dataTransfer event = Some dt"
      and p: "getData dt ''application/note-id'' = numberToString (id_b block)" by auto
  show ?thesis
    using dropListener_call [OF inv dt] n k
    by (simp add: p stringToNumber_numberToString assms(5))
qed

text \<open>Three notes are rendered and the block of the second one is dropped at 200.\<close>

theorem dropListener_moves_dragged_note_witness:
  "reachable (fst drawn0, snd drawn0) \<and>
   blocks (snd drawn0) (Num 1) = Some (blockAt 1 (- 840) 120 20 40) \<and>
   dragListener (blockAt 1 (- 840) 120 20 40) \<lparr>dataTransfer = Some [], clientX = 130\<rparr> =
     Inr \<lparr>dataTransfer = Some [(''application/note-id'', ''1'')], clientX = 130\<rparr> \<and>
   dropListener \<lparr>dataTransfer = Some [(''application/note-id'', ''1'')], clientX = 200\<rparr>
       (snd drawn0) =
     Inr ((snd drawn0)\<lparr>sequence := (sequence (snd drawn0))\<lparr>moveNoteCalls :=
        moveNoteCalls (sequence (snd drawn0)) @
          [(Some \<lparr>start = 2, length_n = 1, number = 62\<rparr>, Some (Num 4))]\<rparr>\<rparr>)"
proof -
  have b: "blocks (snd drawn0) (Num 1) = Some (blockAt 1 (- 840) 120 20 40)"
    by (simp add: drawn0_blocks)
  have d: "dragListener (blockAt 1 (- 840) 120 20 40) \<lparr>dataTransfer = Some [], clientX = 130\<rparr> =
     Inr \<lparr>dataTransfer = Some [(''application/note-id'', ''1'')], clientX = 130\<rparr>"
    by (simp add: dragListener_def setData_def blockAt_def numberToString_1)
  show ?thesis
    using dropListener_moves_dragged_note [OF reachable_drawn0 b d,
        of "\<lparr>dataTransfer = Some [(''application/note-id'', ''1'')], clientX = 200\<rparr>"]
      reachable_drawn0 b d
    by (simp add: drawn0_notes)
qed

text \<open>
  Which units the conversions keep. The units of the result of \<open>outputValuesFor\<close>, and of
  \<open>inputValuesFor\<close>, are the units of the argument, other than \<open>__proto__\<close>, that the
  read \<open>this.units[unit]\<close> finds: the configured ones and the names of the members of
  \<open>Object.prototype\<close>. Every other unit is dropped, as \<open>unknownUnit\<close> is by the display's
  converter. Both functions are total: nothing is raised.
\<close>

theorem recognised_units:
  "fst ` set (outputValuesFor us vs) =
     {u \<in> fst ` set vs. u \<noteq> ''__proto__'' \<and>
        (u \<in> fst ` set us \<or> u \<in> set objectPrototypeNames)} \<and>
   fst ` set (inputValuesFor us vs) =
     {u \<in> fst ` set vs. u \<noteq> ''__proto__'' \<and>
        (u \<in> fst ` set us \<or> u \<in> set objectPrototypeNames)} \<and>
   outputValuesFor converterUnits [(''unknownUnit'', Num 5)] = [] \<and>
   inputValuesFor converterUnits [(''unknownUnit'', Num 5)] = []"
proof -
  have a: "fst ` set (outputValuesFor us vs) =
     {u \<in> fst ` set vs. u \<noteq> ''__proto__'' \<and>
        (u \<in> fst ` set us \<or> u \<in> set objectPrototypeNames)}"
    using keys_fold_outputStep [of "[]" us vs]
    by (simp add: outputValuesFor_def getUnit_Undefined)
  have b: "fst ` set (inputValuesFor us vs) =
     {u \<in> fst ` set vs. u \<noteq> ''__proto__'' \<and>
        (u \<in> fst ` set us \<or> u \<in> set objectPrototypeNames)}"
    using keys_fold_inputStep [of "[]" us vs]
    by (simp add: inputValuesFor_def getUnit_Undefined)
  have c: "outputValuesFor converterUnits [(''unknownUnit'', Num 5)] = []"
    by (simp add: outputValuesFor_def outputStep_def getUnit_def converterUnits_def
        objectPrototypeNames_def)
  have d: "inputValuesFor converterUnits [(''unknownUnit'', Num 5)] = []"
    by (simp add: inputValuesFor_def inputStep_def getUnit_def converterUnits_def
        objectPrototypeNames_def)
  show ?thesis using a b c d by simp
qed

text \<open>
  C4. The result of \<open>outputValuesFor\<close>, and of \<open>inputValuesFor\<close>, is to hold exactly the
  units that are both in the argument and in the configuration: a unit that is not
  configured is dropped, and nothing is raised. The guard \<open>this.units[unit] != undefined\<close>
  is there to drop such units, and it misses the names that \<open>units\<close> inherits from
  \<open>Object.prototype\<close>. The converter of the display configures beat and pitch only, and
  yet for the argument \<open>{toString: 5}\<close> both functions give \<open>{toString: NaN}\<close> in place of
  the empty object.
\<close>

theorem inherited_unit_counterexample:
  "map_of converterUnits ''toString'' = None \<and>
   outputValuesFor converterUnits [(''toString'', Num 5)] = [(''toString'', NaN)] \<and>
   inputValuesFor converterUnits [(''toString'', Num 5)] = [(''toString'', NaN)]"
  by (simp add: outputValuesFor_def outputStep_def inputValuesFor_def inputStep_def
      getUnit_def converterUnits_def objectPrototypeNames_def setProp_def js_sub_def)

text \<open>
  C5. The blocks constructed one after the other in a fresh process have the ids
  \<open>0, 1, ..., N - 1\<close>, in the order of construction: distinct and strictly increasing.
  The generator is never reset: blocks constructed later go on from \<open>N\<close>.
\<close>

theorem ids_in_order:
  "map id_b (fst (newBlocks args Unstarted)) = [0 ..< length args] \<and>
   map id_b (fst (newBlocks later (snd (newBlocks args Unstarted)))) =
     [length args ..< length args + length later] \<and>
   distinct (map id_b (fst (newBlocks args Unstarted))) \<and>
   sorted_wrt (<) (map id_b (fst (newBlocks args Unstarted)))"
proof -
  have a: "map id_b (fst (newBlocks args Unstarted)) = [0 ..< length args]"
    using newBlocks_ids [of args Unstarted] by (simp add: nextId_def)
  have "fst (nextId (snd (newBlocks args Unstarted))) = length args"
    using newBlocks_gen [of args Unstarted] by (simp add: nextId_def)
  then have b: "map id_b (fst (newBlocks later (snd (newBlocks args Unstarted)))) =
     [length args ..< length args + length later]"
    using newBlocks_ids [of later "snd (newBlocks args Unstarted)"] by simp
  show ?thesis
    unfolding a b by simp
qed

text \<open>
  C6. Whatever is given for \<open>xSize\<close> and \<open>ySize\<close>, the converter of the display is
  the same: beat with zero 40 and scaling 40, pitch with zero 400 and scaling - 20. Two
  displays that differ in these arguments convert every argument alike, in both
  directions.
\<close>

theorem sizes_do_not_reach_converter:
  "converter (NoteDisplay_new s q xSize1 ySize1) = converterUnits \<and>
   converter (NoteDisplay_new s q xSize2 ySize2) = converterUnits \<and>
   outputValuesFor (converter (NoteDisplay_new s q xSize1 ySize1)) vs =
     outputValuesFor (converter (NoteDisplay_new s q xSize2 ySize2)) vs \<and>
   inputValuesFor (converter (NoteDisplay_new s q xSize1 ySize1)) vs =
     inputValuesFor (converter (NoteDisplay_new s q xSize2 ySize2)) vs"
  by (simp add: NoteDisplay_new_def)

text \<open>
  C7. In every state a display can be in, \<open>drawNotes\<close> keeps each entry of \<open>blocks\<close>
  and of \<open>notes\<close>: what a key held before the call it holds after it.
\<close>

theorem drawNotes_keeps_entries:
  assumes "reachable (gen, d)"
  shows "blocks d \<subseteq>\<^sub>m blocks (snd (drawNotes d gen)) \<and>
         notes_m d \<subseteq>\<^sub>m notes_m (snd (drawNotes d gen))"
  using fold_drawNote_keeps [OF reachable_displayInv [OF assms]] by (simp add: drawNotes_def)

text \<open>A second \<open>drawNotes\<close> keeps the block and the note stored under the id 0.\<close>

theorem drawNotes_keeps_entries_witness:
  "reachable (fst drawn0, snd drawn0) \<and>
   blocks (snd drawn0) (Num 0) = Some (blockAt 0 (- 800) 40 20 80) \<and>
   blocks (snd (drawNotes (snd drawn0) (fst drawn0))) (Num 0) =
     Some (blockAt 0 (- 800) 40 20 80) \<and>
   notes_m (snd drawn0) (Num 0) = Some \<lparr>start = 0, length_n = 2, number = 60\<rparr> \<and>
   notes_m (snd (drawNotes (snd drawn0) (fst drawn0))) (Num 0) =
     Some \<lparr>start = 0, length_n = 2, number = 60\<rparr>"
proof -
  have b: "blocks (snd drawn0) (Num 0) = Some (blockAt 0 (- 800) 40 20 80)"
    by (simp add: drawn0_blocks)
  have n: "notes_m (snd drawn0) (Num 0) = Some \<lparr>start = 0, length_n = 2, number = 60\<rparr>"
    by (simp add: drawn0_notes)
  from drawNotes_keeps_entries [OF reachable_drawn0]
  have "blocks (snd (drawNotes (snd drawn0) (fst drawn0))) (Num 0) =
      blocks (snd drawn0) (Num 0)"
    and "notes_m (snd (drawNotes (snd drawn0) (fst drawn0))) (Num 0) =
      notes_m (snd drawn0) (Num 0)"
    using b n by (metis map_le_def domI)+
  then show ?thesis
    using reachable_drawn0 b n by simp
qed

text \<open>
  C8. When the number read from the data of a drop is not a key of \<open>notes\<close>, the drop
  listener raises nothing and makes exactly one call of \<open>moveNote\<close>, with \<open>undefined\<close>
  for the note and the new start computed from the pixel.
\<close>

theorem dropListener_unknown_id:
  assumes "reachable (gen, d)"
    and "dataTransfer event = Some dt"
    and "notes_m d (stringToNumber (getData dt ''application/note-id'')) = None"
  shows "dropListener event d =
      Inr (d\<lparr>sequence := (sequence d)\<lparr>moveNoteCalls :=
        moveNoteCalls (sequence d) @ [(None, Some (Num ((clientX event - 40) / 40)))]\<rparr>\<rparr>)"
  using dropListener_call [OF reachable_displayInv [OF assms(1)] assms(2)] assms(3) by simp

text \<open>Three notes are rendered and a drop carries the id 7.\<close>

theorem dropListener_unknown_id_witness:
  "reachable (fst drawn0, snd drawn0) \<and>
   notes_m (snd drawn0) (stringToNumber (getData [(''application/note-id'', ''7'')]
      ''application/note-id'')) = None \<and>
   dropListener \<lparr>dataTransfer = Some [(''application/note-id'', ''7'')], clientX = 200\<rparr>
       (snd drawn0) =
     Inr ((snd drawn0)\<lparr>sequence := (sequence (snd drawn0))\<lparr>moveNoteCalls :=
        moveNoteCalls (sequence (snd drawn0)) @ [(None, Some (Num 4))]\<rparr>\<rparr>)"
proof -
  have n: "notes_m (snd drawn0) (stringToNumber (getData [(''application/note-id'', ''7'')]
      ''application/note-id'')) = None"
    by (simp add: getData_def stringToNumber_7 drawn0_notes)
  show ?thesis
    using dropListener_unknown_id [OF reachable_drawn0 _ n,
        of "\<lparr>dataTransfer = Some [(''application/note-id'', ''7'')], clientX = 200\<rparr>"]
      reachable_drawn0 n
    by simp
qed

text \<open>
  C9. In every state a display can be in (after its construction and after every call
  of \<open>drawNotes\<close> and of the drop listener) \<open>blocks\<close> and \<open>notes\<close> have the same keys.
\<close>

theorem same_keys:
  assumes "reachable (gen, d)"
  shows "dom (blocks d) = dom (notes_m d)"
  using reachable_displayInv [OF assms] by (simp add: displayInv_def)

text \<open>After three notes are rendered the keys of both maps are 0, 1 and 2.\<close>

theorem same_keys_witness:
  "reachable (fst drawn0, snd drawn0) \<and>
   dom (blocks (snd drawn0)) = {Num 0, Num 1, Num 2} \<and>
   dom (blocks (snd drawn0)) = dom (notes_m (snd drawn0))"
  using same_keys [OF reachable_drawn0] reachable_drawn0
  by (auto simp: drawn0_blocks)

text \<open>
  C10. A drop whose data has the empty string for \<open>application/note-id\<close> reads the
  block id 0, since \<open>Number('')\<close> is 0. When a block with the id 0 is rendered, its note
  is passed to \<open>moveNote\<close>, and the drop does exactly what the drop of that block at the
  same pixel does.
\<close>

theorem dropListener_empty_payload:
  assumes "reachable (gen, d)"
    and "dataTransfer event = Some dt"
    and "getData dt ''application/note-id'' = []"
    and "blocks d (Num 0) = Some block"
    and "dragListener block e = Inr e'"
    and "dataTransfer event' = dataTransfer e'"
    and "clientX event' = clientX event"
  shows "\<exists>n. notes_m d (Num 0) = Some n \<and>
    dropListener event d =
      Inr (d\<lparr>sequence := (sequence d)\<lparr>moveNoteCalls :=
        moveNoteCalls (sequence d) @ [(Some n, Some (Num ((clientX event - 40) / 40)))]\<rparr>\<rparr>) \<and>
    dropListener event d = dropListener event' d"
proof -
  have inv: "displayInv (gen, d)" using assms(1) by (rule reachable_displayInv)
  from block_key [OF inv assms(4)] obtain n
    where k: "Num 0 = Num (real (id_b block))" and n: "notes_m d (Num 0) = Some n" by auto
  from dragListener_payload [OF assms(5)] assms(6) obtain dt'
    where dt': "dataTransfer event' = Some dt'"
      and p: "getData dt' ''application/note-id'' = numberToString (id_b block)" by auto
  have a: "dropListener event d =
      Inr (d\<lparr>sequence := (sequence d)\<lparr>moveNoteCalls :=
        moveNoteCalls (sequence d) @ [(Some n, Some (Num ((clientX event - 40) / 40)))]\<rparr>\<rparr>)"
    using dropListener_call [OF inv assms(2)] n by (simp add: assms(3) stringToNumber_empty)
  have b: "dropListener event' d =
      Inr (d\<lparr>sequence := (sequence d)\<lparr>moveNoteCalls :=
        moveNoteCalls (sequence d) @ [(Some n, Some (Num ((clientX event - 40) / 40)))]\<rparr>\<rparr>)"
    using dropListener_call [OF inv dt'] n k
    by (simp add: p stringToNumber_numberToString assms(7))
  show ?thesis using n a b by simp
qed

text \<open>Three notes are rendered; a drop without data moves the first note.\<close>

theorem dropListener_empty_payload_witness:
  "reachable (fst drawn0, snd drawn0) \<and>
   getData [] ''application/note-id'' = [] \<and>
   blocks (snd drawn0) (Num 0) = Some (blockAt 0 (- 800) 40 20 80) \<and>
   dragListener (blockAt 0 (- 800) 40 20 80) \<lparr>dataTransfer = Some [], clientX = 50\<rparr> =
     Inr \<lparr>dataTransfer = Some [(''application/note-id'', ''0'')], clientX = 50\<rparr> \<and>
   dropListener \<lparr>dataTransfer = Some [], clientX = 200\<rparr> (snd drawn0) =
     Inr ((snd drawn0)\<lparr>sequence := (sequence (snd drawn0))\<lparr>moveNoteCalls :=
        moveNoteCalls (sequence (snd drawn0)) @
          [(Some \<lparr>start = 0, length_n = 2, number = 60\<rparr>, Some (Num 4))]\<rparr>\<rparr>) \<and>
   dropListener \<lparr>dataTransfer = Some [], clientX = 200\<rparr> (snd drawn0) =
     dropListener \<lparr>dataTransfer = Some [(''application/note-id'', ''0'')], clientX = 200\<rparr>
       (snd drawn0)"
proof -
  have g: "getData [] ''application/note-id'' = []" by (simp add: getData_def)
  have b: "blocks (snd drawn0) (Num 0) = Some (blockAt 0 (- 800) 40 20 80)"
    by (simp add: drawn0_blocks)
  have d: "dragListener (blockAt 0 (- 800) 40 20 80) \<lparr>dataTransfer = Some [], clientX = 50\<rparr> =
     Inr \<lparr>dataTransfer = Some [(''application/note-id'', ''0'')], clientX = 50\<rparr>"
    by (simp add: dragListener_def setData_def blockAt_def numberToString_0)
  show ?thesis
    using dropListener_empty_payload [OF reachable_drawn0 _ g b d,
        of "\<lparr>dataTransfer = Some [], clientX = 200\<rparr>"
           "\<lparr>dataTransfer = Some [(''application/note-id'', ''0'')], clientX = 200\<rparr>"]
      reachable_drawn0 g b d
    by (auto simp: drawn0_notes)
qed

end
